theory Spec2Isabelle
  imports Main "HOL-Library.Word"
begin

unbundle bit_operations_syntax

section \<open>The message handler map (event\_m0.cpp, class MessageHandlerMap)\<close>

text \<open>
  A message carries its identifier and a payload. \<open>Message::ID\<close> is an enumeration
  over an unsigned integer whose last enumerator is \<open>MAX\<close>; \<open>toUType\<close> yields the
  underlying number, modelled as a natural number (no arithmetic is done on it).
\<close>

record 'p Message =
  msg_id :: nat
  payload :: 'p

text \<open>
  \<open>MessageHandler\<close> is a \<open>std::function\<close>: either empty (\<open>nullptr\<close>, \<open>None\<close>) or a
  callable. A handler acts on everything outside the map; that outside is the state \<open>'s\<close>.
\<close>

type_synonym ('p, 's) MessageHandler = "('p Message \<Rightarrow> 's \<Rightarrow> 's) option"

text \<open>
  Ways in which a member function does not return normally: \<open>chDbgPanic\<close> halts the
  system with its message, an index outside a \<open>std::array\<close> is undefined behaviour,
  and a loop may run forever.
\<close>

datatype halt = Panic string | OutOfBounds nat | Diverges

definition then_do :: "halt + 'a \<Rightarrow> ('a \<Rightarrow> halt + 'b) \<Rightarrow> halt + 'b" where
  "then_do r k = (case r of Inl e \<Rightarrow> Inl e | Inr v \<Rightarrow> k v)"

text \<open>
  \<open>map_\<close> (here \<open>map_tbl\<close>) is a
  \<open>std::array<MessageHandler, toUType(Message::ID::MAX)>\<close>: its length is \<open>MAX\<close>
  (here \<open>ID_MAX\<close>) by its type.
\<close>

record ('p, 's) MessageHandlerMap =
  map_tbl :: "('p, 's) MessageHandler list"

definition ID_MAX :: "('p, 's) MessageHandlerMap \<Rightarrow> nat" where
  "ID_MAX m = length (map_tbl m)"

text \<open>\<open>map_[i]\<close>: the array does not check its index.\<close>

definition at :: "'a list \<Rightarrow> nat \<Rightarrow> halt + 'a" where
  "at xs i = (if i < length xs then Inr (xs ! i) else Inl (OutOfBounds i))"

text \<open>
  Modelled from the spec: \<open>chDbgPanic\<close> is a macro of the operating system, whose
  text is not part of these sources; the spec has it abort at once, so the store that
  follows it is not reached.
\<close>

definition chDbgPanic :: "string \<Rightarrow> halt + 'a" where
  "chDbgPanic msg = Inl (Panic msg)"

definition register_handler ::
  "('p, 's) MessageHandlerMap \<Rightarrow> nat \<Rightarrow> ('p, 's) MessageHandler \<Rightarrow>
     halt + ('p, 's) MessageHandlerMap" where
  "register_handler m i handler =
     (case at (map_tbl m) i of
        Inl e \<Rightarrow> Inl e
      | Inr fn \<Rightarrow>
          if fn \<noteq> None then chDbgPanic ''MsgDblReg''
          else Inr (m\<lparr>map_tbl := (map_tbl m)[i := handler]\<rparr>))"

definition unregister_handler ::
  "('p, 's) MessageHandlerMap \<Rightarrow> nat \<Rightarrow> halt + ('p, 's) MessageHandlerMap" where
  "unregister_handler m i =
     (case at (map_tbl m) i of
        Inl e \<Rightarrow> Inl e
      | Inr _ \<Rightarrow> Inr (m\<lparr>map_tbl := (map_tbl m)[i := None]\<rparr>))"

text \<open>
  \<open>send\<close> returns the map as it leaves it together with the state after the handler.
\<close>

definition send ::
  "('p, 's) MessageHandlerMap \<Rightarrow> 'p Message \<Rightarrow> 's \<Rightarrow>
     halt + (('p, 's) MessageHandlerMap \<times> 's)" where
  "send m message s =
     (if msg_id message < ID_MAX m then
        (case at (map_tbl m) (msg_id message) of
           Inl e \<Rightarrow> Inl e
         | Inr fn \<Rightarrow>
             (case fn of
                Some f \<Rightarrow> Inr (m, f message s)
              | None \<Rightarrow> Inr (m, s)))
      else Inr (m, s))"

text \<open>
  The handler registered for an identifier: the identifier is below \<open>MAX\<close> and its
  slot is not empty.
\<close>

definition registered ::
  "('p, 's) MessageHandlerMap \<Rightarrow> nat \<Rightarrow> ('p, 's) MessageHandler" where
  "registered m i = (if i < ID_MAX m then map_tbl m ! i else None)"

text \<open>A slot of the table, where the table has one.\<close>

definition slot :: "('p, 's) MessageHandlerMap \<Rightarrow> nat \<Rightarrow> ('p, 's) MessageHandler option" where
  "slot m i = (if i < ID_MAX m then Some (map_tbl m ! i) else None)"

section \<open>Touch events (ui.hpp, declarations only)\<close>

text \<open>
  A touch event carries a point of the screen and its kind. The coordinates are integers.
\<close>

record Point =
  px :: int
  py :: int

datatype TouchEvent_Type = Start | Move | End

record TouchEvent =
  point :: Point
  event_type :: TouchEvent_Type

section \<open>The touch manager (touch.cpp, Manager::feed)\<close>

text \<open>
  One frame of the panel: three groups of four raw readings and the contact flag.
\<close>

record Samples =
  xp :: nat
  xn :: nat
  yp :: nat
  yn :: nat

record Frame =
  frame_pressure :: Samples
  frame_x :: Samples
  frame_y :: Samples
  frame_touch :: bool

text \<open>
  The two states of the machine; \<open>OtherState\<close> stands for any other value of the
  field, which the \<open>default\<close> branch of the switch resets.
\<close>

datatype State = NoTouch | TouchDetected | OtherState nat

text \<open>
  \<open>calculate_metrics\<close> computes in single-precision floating point, and the filters,
  \<open>point_stable\<close> and \<open>filtered_point\<close> are declared in touch.hpp. They are taken
  as parameters: \<open>r_below_threshold frame\<close> is the outcome of
  \<open>calculate_metrics(frame).r < r_touch_threshold\<close>; \<open>filters_feed frame\<close> feeds the
  calibrated coordinates of the frame to \<open>filter_x\<close> and \<open>filter_y\<close>;
  \<open>filters_reset\<close> resets both; \<open>'f\<close> is the state of the two filters.
\<close>

record 'f touch_env =
  r_below_threshold :: "Frame \<Rightarrow> bool"
  filters_feed :: "Frame \<Rightarrow> 'f \<Rightarrow> 'f"
  filters_reset :: "'f \<Rightarrow> 'f"
  point_stable :: "'f \<Rightarrow> bool"
  filtered_point :: "'f \<Rightarrow> Point"

record 'f Manager =
  state :: State
  filters :: 'f

text \<open>
  The three member functions that \<open>feed\<close> calls to report a gesture; they are declared
  in touch.hpp. \<open>feed\<close> returns the manager as it leaves it and the calls it has made,
  in order.
\<close>

datatype callback = touch_started | touch_moved | touch_ended

definition feed :: "'f touch_env \<Rightarrow> Frame \<Rightarrow> 'f Manager \<Rightarrow> 'f Manager \<times> callback list" where
  "feed env frame m =
     (let touch_raw = frame_touch frame;
          touch_stable = frame_touch frame;
          touch_pressure = (touch_raw \<and> r_below_threshold env frame);
          m1 = (if touch_raw then
                  (if touch_pressure
                   then m\<lparr>filters := filters_feed env frame (filters m)\<rparr>
                   else m)
                else m\<lparr>filters := filters_reset env (filters m)\<rparr>)
      in case state m1 of
           NoTouch \<Rightarrow>
             if touch_stable \<and> touch_pressure then
               (if point_stable env (filters m1) then
                  (m1\<lparr>state := TouchDetected\<rparr>, [touch_started])
                else (m1, []))
             else (m1, [])
         | TouchDetected \<Rightarrow>
             if touch_stable \<and> touch_pressure then (m1, [touch_moved])
             else (m1\<lparr>state := NoTouch\<rparr>, [touch_ended])
         | OtherState _ \<Rightarrow> (m1\<lparr>state := NoTouch\<rparr>, []))"

text \<open>A sequence of calls of \<open>feed\<close>, one per frame, and all the calls they make.\<close>

fun feeds :: "'f touch_env \<Rightarrow> Frame list \<Rightarrow> 'f Manager \<Rightarrow> 'f Manager \<times> callback list" where
  "feeds env [] m = (m, [])"
| "feeds env (frame # frames) m =
     (let (m1, es1) = feed env frame m;
          (m2, es2) = feeds env frames m1
      in (m2, es1 @ es2))"

text \<open>
  Modelled from the spec: the bodies of \<open>touch_started\<close>, \<open>touch_moved\<close> and
  \<open>touch_ended\<close> are in touch.hpp; the spec has them emit a \<open>Start\<close>, a \<open>Move\<close> or
  an \<open>End\<close> event, at the filtered point, to the \<open>on_event\<close> callback.
\<close>

definition fire_event :: "'f touch_env \<Rightarrow> 'f Manager \<Rightarrow> callback \<Rightarrow> TouchEvent" where
  "fire_event env m c =
     \<lparr>point = filtered_point env (filters m),
      event_type = (case c of touch_started \<Rightarrow> Start | touch_moved \<Rightarrow> Move | touch_ended \<Rightarrow> End)\<rparr>"

text \<open>A sample with contact whose resistance is below the threshold.\<close>

definition touch_qualified :: "'f touch_env \<Rightarrow> Frame \<Rightarrow> bool" where
  "touch_qualified env frame = (frame_touch frame \<and> r_below_threshold env frame)"

section \<open>Widgets (ui\_widget.hpp, declarations only)\<close>

text \<open>
  A rectangle is the set of points it contains. A widget is a node of the tree: the
  address that identifies it, its \<open>hidden\<close> flag, its screen rectangle, its three
  callbacks and its children in the order \<open>children()\<close> lists them. A callback
  answers whether it consumed the event and may change anything outside the dispatcher;
  that outside is the state \<open>'s\<close>. A pointer to a widget is the node itself.
\<close>

type_synonym Rect = "Point set"

definition contains :: "Rect \<Rightarrow> Point \<Rightarrow> bool" where
  "contains r p = (p \<in> r)"

type_synonym KeyEvent = nat
type_synonym EncoderEvent = int

datatype 's Widget = Widget
  (wid: nat)
  (hidden: bool)
  (screen_rect: Rect)
  (on_touch: "TouchEvent \<Rightarrow> 's \<Rightarrow> bool \<times> 's")
  (on_key: "KeyEvent \<Rightarrow> 's \<Rightarrow> bool \<times> 's")
  (on_encoder: "EncoderEvent \<Rightarrow> 's \<Rightarrow> bool \<times> 's")
  (children: "'s Widget list")

text \<open>
  \<open>touch_widget\<close> (lines 191-211); \<open>touch_children\<close> is its loop over
  \<open>w->children()\<close>, which leaves at the first child that returns a widget.
\<close>

fun touch_widget :: "'s Widget \<Rightarrow> TouchEvent \<Rightarrow> 's \<Rightarrow> 's Widget option \<times> 's"
  and touch_children :: "'s Widget list \<Rightarrow> TouchEvent \<Rightarrow> 's \<Rightarrow> 's Widget option \<times> 's" where
  "touch_widget (Widget a h r ot ok oe cs) event s =
     (let w = Widget a h r ot ok oe cs in
      if \<not> hidden w then
        (case touch_children (children w) event s of
           (Some touched_widget, s1) \<Rightarrow> (Some touched_widget, s1)
         | (None, s1) \<Rightarrow>
             if contains (screen_rect w) (point event) then
               (case on_touch w event s1 of
                  (True, s2) \<Rightarrow> (Some w, s2)
                | (False, s2) \<Rightarrow> (None, s2))
             else (None, s1))
      else (None, s))"
| "touch_children [] event s = (None, s)"
| "touch_children (child # rest) event s =
     (case touch_widget child event s of
        (Some touched_widget, s1) \<Rightarrow> (Some touched_widget, s1)
      | (None, s1) \<Rightarrow> touch_children rest event s1)"

text \<open>
  A widget covers a point when it is not hidden and its rectangle, or a widget below it
  that is reached through widgets that are not hidden, contains the point.
\<close>

fun covers :: "'s Widget \<Rightarrow> Point \<Rightarrow> bool" where
  "covers (Widget a h r ot ok oe cs) p =
     (\<not> h \<and> (contains r p \<or> (\<exists>c\<in>set cs. covers c p)))"

section \<open>The event dispatcher (event\_m0.cpp, class EventDispatcher)\<close>

text \<open>
  The member functions that \<open>dispatch\<close> calls, one name for each. \<open>serviced\<close> of the
  dispatcher records, in order, which of them were entered; it is not a field of the
  class but a trace kept beside it.
\<close>

datatype handler =
  ApplicationQueue | LocalQueue | RtcTick | Switches | LcdFrameSync | Encoder | Touch

text \<open>
  The dispatcher: its fields, the static \<open>message_map\<close> of the file, the trace, and
  \<open>world\<close>, the state of everything the collaborators and the callbacks act on.

  A message handler is a closure of the application, and the dispatcher offers
  \<open>set_display_sleep\<close> to the application. So a handler can change \<open>display_sleep\<close>
  as well as the world: it acts on the pair of the flag and the world.
\<close>

record ('p, 's, 'f) EventDispatcher =
  top_widget :: "'s Widget"
  captured_widget :: "'s Widget option"
  display_sleep :: bool
  encoder_last :: "32 word"
  touch_manager :: "'f Manager"
  message_map :: "('p, bool \<times> 's) MessageHandlerMap"
  serviced :: "handler list"
  world :: 's

text \<open>
  What the file takes from its headers and collaborators: the event masks of
  event\_m0.hpp, the parameters of the touch manager, the back reference
  \<open>Widget::parent\<close>, the focus manager, the three calls of the clock tick, the painter,
  the backlight and the display, and the frame-sync message. The three calls of the
  clock tick reach code of the application (the tick is handed on to whoever listens to
  it), so they act, as the message handlers do, on the pair of \<open>display_sleep\<close> and
  the world; the other collaborators act on the world.
\<close>

record ('p, 's, 'f) collaborators =
  EVT_MASK_APPLICATION :: "32 word"
  EVT_MASK_LOCAL :: "32 word"
  EVT_MASK_RTC_TICK :: "32 word"
  EVT_MASK_SWITCHES :: "32 word"
  EVT_MASK_LCD_FRAME_SYNC :: "32 word"
  EVT_MASK_ENCODER :: "32 word"
  EVT_MASK_TOUCH :: "32 word"
  touch_env :: "'f touch_env"
  parent :: "'s Widget \<Rightarrow> 's Widget option"
  focus_widget :: "'s \<Rightarrow> 's Widget option"
  focus_update :: "'s Widget \<Rightarrow> KeyEvent \<Rightarrow> 's \<Rightarrow> 's"
  sd_card_poll_inserted :: "bool \<times> 's \<Rightarrow> bool \<times> 's"
  temperature_logger_second_tick :: "bool \<times> 's \<Rightarrow> bool \<times> 's"
  time_on_tick_second :: "bool \<times> 's \<Rightarrow> bool \<times> 's"
  paint_widget_tree :: "'s Widget \<Rightarrow> 's \<Rightarrow> 's"
  lcd_backlight :: "bool \<Rightarrow> 's \<Rightarrow> 's"
  display_sleep_cmd :: "'s \<Rightarrow> 's"
  display_wake_cmd :: "'s \<Rightarrow> 's"
  DisplayFrameSyncMessage :: "'p Message"

text \<open>
  What one cycle reads from the hardware and the queues: the messages waiting in the two
  queues, the state of the switches (a \<open>std::bitset\<close>), the position of the encoder
  and the frame of the touch panel.
\<close>

record 'p inputs =
  application_queue :: "'p Message list"
  app_local_queue :: "'p Message list"
  switches_state :: "bool list"
  encoder_position :: "32 word"
  touch_frame :: Frame

definition set_display_sleep ::
  "('p, 's, 'f) collaborators \<Rightarrow> bool \<Rightarrow> ('p, 's, 'f) EventDispatcher \<Rightarrow>
     ('p, 's, 'f) EventDispatcher" where
  "set_display_sleep env sleep d =
     (let s = (if sleep then display_sleep_cmd env (lcd_backlight env False (world d))
               else lcd_backlight env True (display_wake_cmd env (world d)))
      in d\<lparr>world := s, display_sleep := sleep\<rparr>)"

text \<open>
  \<open>message_map.send(message)\<close>: the handler, if one runs, is given the flag and the
  world of the dispatcher and leaves both as it likes.
\<close>

definition message_map_send ::
  "('p, 's, 'f) EventDispatcher \<Rightarrow> 'p Message \<Rightarrow> halt + ('p, 's, 'f) EventDispatcher" where
  "message_map_send d message =
     then_do (send (message_map d) message (display_sleep d, world d))
       (\<lambda>(m, r). Inr (d\<lparr>message_map := m, display_sleep := fst r, world := snd r\<rparr>))"

text \<open>
  Modelled from the spec: \<open>MessageQueue::handle\<close> is declared in message\_queue.hpp;
  the spec has it drain the queued messages in the order they were queued and call the
  callback once for each. The callback of both queues is \<open>message_map.send\<close>.
\<close>

fun queue_handle ::
  "'p Message list \<Rightarrow> ('p, 's, 'f) EventDispatcher \<Rightarrow> halt + ('p, 's, 'f) EventDispatcher" where
  "queue_handle [] d = Inr d"
| "queue_handle (message # rest) d = then_do (message_map_send d message) (queue_handle rest)"

definition handle_application_queue ::
  "'p inputs \<Rightarrow> ('p, 's, 'f) EventDispatcher \<Rightarrow> halt + ('p, 's, 'f) EventDispatcher" where
  "handle_application_queue inp d =
     queue_handle (application_queue inp) (d\<lparr>serviced := serviced d @ [ApplicationQueue]\<rparr>)"

definition handle_local_queue ::
  "'p inputs \<Rightarrow> ('p, 's, 'f) EventDispatcher \<Rightarrow> halt + ('p, 's, 'f) EventDispatcher" where
  "handle_local_queue inp d =
     queue_handle (app_local_queue inp) (d\<lparr>serviced := serviced d @ [LocalQueue]\<rparr>)"

definition handle_rtc_tick ::
  "('p, 's, 'f) collaborators \<Rightarrow> ('p, 's, 'f) EventDispatcher \<Rightarrow> ('p, 's, 'f) EventDispatcher" where
  "handle_rtc_tick env d =
     (let r = time_on_tick_second env
                (temperature_logger_second_tick env
                  (sd_card_poll_inserted env (display_sleep d, world d)))
      in d\<lparr>serviced := serviced d @ [RtcTick], display_sleep := fst r, world := snd r\<rparr>)"

definition on_touch_event ::
  "('p, 's, 'f) EventDispatcher \<Rightarrow> TouchEvent \<Rightarrow> ('p, 's, 'f) EventDispatcher" where
  "on_touch_event d event =
     (let d1 = (if event_type event = Start then
                  (case touch_widget (top_widget d) event (world d) of
                     (w, s) \<Rightarrow> d\<lparr>captured_widget := w, world := s\<rparr>)
                else d)
      in case captured_widget d1 of
           Some w \<Rightarrow> d1\<lparr>world := snd (on_touch w event (world d1))\<rparr>
         | None \<Rightarrow> d1)"

definition handle_lcd_frame_sync ::
  "('p, 's, 'f) collaborators \<Rightarrow> ('p, 's, 'f) EventDispatcher \<Rightarrow>
     halt + ('p, 's, 'f) EventDispatcher" where
  "handle_lcd_frame_sync env d =
     then_do (message_map_send (d\<lparr>serviced := serviced d @ [LcdFrameSync]\<rparr>)
                (DisplayFrameSyncMessage env))
       (\<lambda>d1. Inr (d1\<lparr>world := paint_widget_tree env (top_widget d1) (world d1)\<rparr>))"

text \<open>
  The loop of \<open>event_bubble_key\<close> and of \<open>event_bubble_encoder\<close>:
  \<open>while( (target != nullptr) && !target->on_...(event) ) target = target->parent();\<close>
  with \<open>respond\<close> for the callback. It returns the last \<open>target\<close>, and nothing when
  the loop does not end.
\<close>

partial_function (option) bubble ::
  "('s Widget \<Rightarrow> 's Widget option) \<Rightarrow> ('s Widget \<Rightarrow> 's \<Rightarrow> bool \<times> 's) \<Rightarrow>
     's Widget option \<Rightarrow> 's \<Rightarrow> ('s Widget option \<times> 's) option" where
  "bubble parent_of respond target s =
     (case target of
        None \<Rightarrow> Some (None, s)
      | Some w \<Rightarrow>
          (case respond w s of
             (consumed, s1) \<Rightarrow>
               if consumed then Some (Some w, s1)
               else bubble parent_of respond (parent_of w) s1))"

definition event_bubble_key ::
  "('p, 's, 'f) collaborators \<Rightarrow> KeyEvent \<Rightarrow> ('p, 's, 'f) EventDispatcher \<Rightarrow>
     halt + (bool \<times> ('p, 's, 'f) EventDispatcher)" where
  "event_bubble_key env event d =
     (case bubble (parent env) (\<lambda>w. on_key w event) (focus_widget env (world d)) (world d) of
        None \<Rightarrow> Inl Diverges
      | Some (target, s) \<Rightarrow> Inr (target \<noteq> None, d\<lparr>world := s\<rparr>))"

definition event_bubble_encoder ::
  "('p, 's, 'f) collaborators \<Rightarrow> EncoderEvent \<Rightarrow> ('p, 's, 'f) EventDispatcher \<Rightarrow>
     halt + ('p, 's, 'f) EventDispatcher" where
  "event_bubble_encoder env event d =
     (case bubble (parent env) (\<lambda>w. on_encoder w event) (focus_widget env (world d)) (world d) of
        None \<Rightarrow> Inl Diverges
      | Some (target, s) \<Rightarrow> Inr (d\<lparr>world := s\<rparr>))"

text \<open>
  The body of the loop of \<open>handle_switches\<close> for a switch \<open>i\<close> that is pressed
  (lines 253-256): the key event is the number of the switch.
\<close>

definition handle_switch ::
  "('p, 's, 'f) collaborators \<Rightarrow> nat \<Rightarrow> ('p, 's, 'f) EventDispatcher \<Rightarrow>
     halt + ('p, 's, 'f) EventDispatcher" where
  "handle_switch env i d =
     (let event = i in
      then_do (event_bubble_key env event d)
        (\<lambda>(consumed, d1).
           if \<not> consumed
           then Inr (d1\<lparr>world := focus_update env (top_widget d1) event (world d1)\<rparr>)
           else Inr d1))"

fun switches_loop ::
  "('p, 's, 'f) collaborators \<Rightarrow> bool list \<Rightarrow> nat list \<Rightarrow> ('p, 's, 'f) EventDispatcher \<Rightarrow>
     halt + ('p, 's, 'f) EventDispatcher" where
  "switches_loop env sw [] d = Inr d"
| "switches_loop env sw (i # rest) d =
     (if sw ! i then then_do (handle_switch env i d) (switches_loop env sw rest)
      else switches_loop env sw rest d)"

definition handle_switches ::
  "('p, 's, 'f) collaborators \<Rightarrow> 'p inputs \<Rightarrow> ('p, 's, 'f) EventDispatcher \<Rightarrow>
     halt + ('p, 's, 'f) EventDispatcher" where
  "handle_switches env inp d0 =
     (let d = d0\<lparr>serviced := serviced d0 @ [Switches]\<rparr>;
          sw = switches_state inp
      in if display_sleep d then
           (if True \<in> set sw then Inr (set_display_sleep env False d) else Inr d)
         else switches_loop env sw [0..<length sw] d)"

definition handle_encoder ::
  "('p, 's, 'f) collaborators \<Rightarrow> 'p inputs \<Rightarrow> ('p, 's, 'f) EventDispatcher \<Rightarrow>
     halt + ('p, 's, 'f) EventDispatcher" where
  "handle_encoder env inp d0 =
     (let d = d0\<lparr>serviced := serviced d0 @ [Encoder]\<rparr>;
          encoder_now = encoder_position inp;
          delta = sint (encoder_now - encoder_last d);
          d1 = d\<lparr>encoder_last := encoder_now\<rparr>
      in event_bubble_encoder env delta d1)"

text \<open>
  \<open>handle_touch\<close> feeds the frame to the touch manager, whose \<open>on_event\<close> callback
  is \<open>on_touch_event\<close> (set in the constructor, lines 102-104).
\<close>

definition handle_touch ::
  "('p, 's, 'f) collaborators \<Rightarrow> 'p inputs \<Rightarrow> ('p, 's, 'f) EventDispatcher \<Rightarrow>
     ('p, 's, 'f) EventDispatcher" where
  "handle_touch env inp d0 =
     (let d = d0\<lparr>serviced := serviced d0 @ [Touch]\<rparr>;
          (m, calls) = feed (touch_env env) (touch_frame inp) (touch_manager d)
      in foldl on_touch_event (d\<lparr>touch_manager := m\<rparr>)
           (map (fire_event (touch_env env) m) calls))"

definition dispatch ::
  "('p, 's, 'f) collaborators \<Rightarrow> 'p inputs \<Rightarrow> 32 word \<Rightarrow> ('p, 's, 'f) EventDispatcher \<Rightarrow>
     halt + ('p, 's, 'f) EventDispatcher" where
  "dispatch env inp events d0 =
     then_do (if events AND EVT_MASK_APPLICATION env \<noteq> 0
              then handle_application_queue inp d0 else Inr d0) (\<lambda>d1.
     then_do (if events AND EVT_MASK_LOCAL env \<noteq> 0
              then handle_local_queue inp d1 else Inr d1) (\<lambda>d2.
     then_do (if events AND EVT_MASK_RTC_TICK env \<noteq> 0
              then Inr (handle_rtc_tick env d2) else Inr d2) (\<lambda>d3.
     then_do (if events AND EVT_MASK_SWITCHES env \<noteq> 0
              then handle_switches env inp d3 else Inr d3) (\<lambda>d4.
     if \<not> display_sleep d4 then
       then_do (if events AND EVT_MASK_LCD_FRAME_SYNC env \<noteq> 0
                then handle_lcd_frame_sync env d4 else Inr d4) (\<lambda>d5.
       then_do (if events AND EVT_MASK_ENCODER env \<noteq> 0
                then handle_encoder env inp d5 else Inr d5) (\<lambda>d6.
       if events AND EVT_MASK_TOUCH env \<noteq> 0
       then Inr (handle_touch env inp d6) else Inr d6))
     else Inr d4))))"

section \<open>Notions used to state the properties\<close>

text \<open>
  The chain of parents of a widget: \<open>parent_chain parent_of target ws\<close> holds when
  \<open>ws\<close> lists \<open>target\<close>, its parent, the parent of that, and so on up to the widget
  whose parent is null.
\<close>

fun parent_chain ::
  "('s Widget \<Rightarrow> 's Widget option) \<Rightarrow> 's Widget option \<Rightarrow> 's Widget list \<Rightarrow> bool" where
  "parent_chain parent_of None ws = (ws = [])"
| "parent_chain parent_of (Some w) [] = False"
| "parent_chain parent_of (Some w) (v # vs) = (v = w \<and> parent_chain parent_of (parent_of w) vs)"

text \<open>
  The spec's bubbling, on a chain given as a list: call the callback of each widget in
  turn until one consumes the event or the list is exhausted; the result is the widget
  that consumed it, if any.
\<close>

fun bubble_walk ::
  "('s Widget \<Rightarrow> 's \<Rightarrow> bool \<times> 's) \<Rightarrow> 's Widget list \<Rightarrow> 's \<Rightarrow> 's Widget option \<times> 's" where
  "bubble_walk respond [] s = (None, s)"
| "bubble_walk respond (w # ws) s =
     (case respond w s of
        (consumed, s1) \<Rightarrow> if consumed then (Some w, s1) else bubble_walk respond ws s1)"

text \<open>
  The widgets that a hit test from \<open>w\<close> can reach, in the order in which it comes to
  test their rectangles: a hidden widget hides itself and everything below it; the
  children come before their parent, in the order of \<open>children()\<close>. Those of them
  whose rectangle contains the point are the widgets the hit test may probe.
\<close>

fun visible_widgets :: "'s Widget \<Rightarrow> 's Widget list" where
  "visible_widgets (Widget a h r ot ok oe cs) =
     (if h then [] else concat (map visible_widgets cs) @ [Widget a h r ot ok oe cs])"

definition probed :: "'s Widget \<Rightarrow> Point \<Rightarrow> 's Widget list" where
  "probed w p = filter (\<lambda>v. contains (screen_rect v) p) (visible_widgets w)"

text \<open>
  Every widget of a list declines when called in turn, each in the state the calls
  before it have left.
\<close>

fun all_decline :: "('s Widget \<Rightarrow> 's \<Rightarrow> bool \<times> 's) \<Rightarrow> 's Widget list \<Rightarrow> 's \<Rightarrow> bool" where
  "all_decline respond [] s = True"
| "all_decline respond (v # vs) s =
     (\<not> fst (respond v s) \<and> all_decline respond vs (snd (respond v s)))"






section \<open>Concrete instances\<close>

text \<open>A map of three slots whose handlers append to a list of numbers.\<close>

definition note_handler :: "nat \<Rightarrow> (nat Message \<Rightarrow> nat list \<Rightarrow> nat list)" where
  "note_handler k = (\<lambda>message s. s @ [k, payload message])"

definition map3 :: "(nat, nat list) MessageHandlerMap" where
  "map3 = \<lparr>map_tbl = [None, Some (note_handler 7), None]\<rparr>"

definition map3_cleared :: "(nat, nat list) MessageHandlerMap" where
  "map3_cleared = \<lparr>map_tbl = [None, None, None]\<rparr>"

definition msg5 :: "nat \<Rightarrow> nat Message" where
  "msg5 i = \<lparr>msg_id = i, payload = 5\<rparr>"

text \<open>
  A touch manager whose filter state counts the samples fed since the last reset; the
  point is stable from the second sample on, and a sample is below the threshold when
  its first pressure reading is below 100.
\<close>

definition touch_env0 :: "nat touch_env" where
  "touch_env0 =
     \<lparr>r_below_threshold = (\<lambda>frame. xp (frame_pressure frame) < 100),
      filters_feed = (\<lambda>frame n. Suc n),
      filters_reset = (\<lambda>n. 0),
      point_stable = (\<lambda>n. 2 \<le> n),
      filtered_point = (\<lambda>n. \<lparr>px = 7, py = 7\<rparr>)\<rparr>"

definition samples0 :: "nat \<Rightarrow> Samples" where
  "samples0 v = \<lparr>xp = v, xn = 0, yp = 0, yn = 0\<rparr>"

definition frame0 :: "bool \<Rightarrow> nat \<Rightarrow> Frame" where
  "frame0 contact r =
     \<lparr>frame_pressure = samples0 r, frame_x = samples0 0, frame_y = samples0 0,
      frame_touch = contact\<rparr>"

definition manager0 :: "nat Manager" where
  "manager0 = \<lparr>state = NoTouch, filters = 1\<rparr>"

text \<open>
  A world that is the list of the calls made so far, and widgets whose callbacks record
  their call and answer a fixed value.
\<close>

datatype call =
  OnTouch nat TouchEvent_Type | OnKey nat KeyEvent | OnEncoder nat EncoderEvent
  | FocusUpdate KeyEvent | Painted | Backlight bool | DisplayWake | DisplaySleep
  | Handled nat

definition log_touch :: "nat \<Rightarrow> bool \<Rightarrow> TouchEvent \<Rightarrow> call list \<Rightarrow> bool \<times> call list" where
  "log_touch a consume event s = (consume, s @ [OnTouch a (event_type event)])"

definition log_key :: "nat \<Rightarrow> bool \<Rightarrow> KeyEvent \<Rightarrow> call list \<Rightarrow> bool \<times> call list" where
  "log_key a consume event s = (consume, s @ [OnKey a event])"

definition log_encoder :: "nat \<Rightarrow> bool \<Rightarrow> EncoderEvent \<Rightarrow> call list \<Rightarrow> bool \<times> call list" where
  "log_encoder a consume event s = (consume, s @ [OnEncoder a event])"

definition box :: "int \<Rightarrow> int \<Rightarrow> int \<Rightarrow> int \<Rightarrow> Rect" where
  "box l t r b = {p. l \<le> px p \<and> px p < r \<and> t \<le> py p \<and> py p < b}"

definition leaf :: "nat \<Rightarrow> Rect \<Rightarrow> bool \<Rightarrow> call list Widget" where
  "leaf a r consume =
     Widget a False r (log_touch a consume) (log_key a consume) (log_encoder a consume) []"

text \<open>
  A panel with two children that overlap on the square from (5, 5) to (10, 10) and both
  consume every touch event; the panel itself declines.
\<close>

definition sibling_A :: "call list Widget" where
  "sibling_A = leaf 1 (box 0 0 10 10) True"

definition sibling_B :: "call list Widget" where
  "sibling_B = leaf 2 (box 5 5 20 20) True"

definition panel :: "call list Widget" where
  "panel = Widget 0 False (box 0 0 100 100) (log_touch 0 False) (log_key 0 False)
             (log_encoder 0 False) [sibling_A, sibling_B]"

definition touch_at :: "int \<Rightarrow> int \<Rightarrow> TouchEvent_Type \<Rightarrow> TouchEvent" where
  "touch_at a b t = \<lparr>point = \<lparr>px = a, py = b\<rparr>, event_type = t\<rparr>"

text \<open>
  A chain of four widgets for the keys: 12 below 11 below 10 below 9; only 11 consumes
  a key event.
\<close>

definition key_top :: "call list Widget" where
  "key_top = Widget 9 False (box 0 0 100 100) (log_touch 9 False) (log_key 9 False)
               (log_encoder 9 False) []"

definition key_root :: "call list Widget" where
  "key_root = Widget 10 False (box 0 0 100 100) (log_touch 10 False) (log_key 10 False)
                (log_encoder 10 False) []"

definition key_mid :: "call list Widget" where
  "key_mid = Widget 11 False (box 0 0 50 50) (log_touch 11 False) (log_key 11 True)
               (log_encoder 11 False) []"

definition key_leaf :: "call list Widget" where
  "key_leaf = Widget 12 False (box 0 0 10 10) (log_touch 12 False) (log_key 12 False)
                (log_encoder 12 False) []"

definition parent0 :: "call list Widget \<Rightarrow> call list Widget option" where
  "parent0 w =
     (if wid w = 12 then Some key_mid
      else if wid w = 11 then Some key_root
      else if wid w = 10 then Some key_top
      else None)"

text \<open>Collaborators that record their calls, with the focus on a given widget.\<close>

definition env0 :: "call list Widget \<Rightarrow> (nat, call list, nat) collaborators" where
  "env0 focus =
     \<lparr>EVT_MASK_APPLICATION = 1, EVT_MASK_LOCAL = 2, EVT_MASK_RTC_TICK = 4,
      EVT_MASK_SWITCHES = 8, EVT_MASK_LCD_FRAME_SYNC = 16, EVT_MASK_ENCODER = 32,
      EVT_MASK_TOUCH = 64,
      touch_env = touch_env0,
      parent = parent0,
      focus_widget = (\<lambda>s. Some focus),
      focus_update = (\<lambda>tw event s. s @ [FocusUpdate event]),
      sd_card_poll_inserted = (\<lambda>s. s),
      temperature_logger_second_tick = (\<lambda>s. s),
      time_on_tick_second = (\<lambda>s. s),
      paint_widget_tree = (\<lambda>tw s. s @ [Painted]),
      lcd_backlight = (\<lambda>on s. s @ [Backlight on]),
      display_sleep_cmd = (\<lambda>s. s @ [DisplaySleep]),
      display_wake_cmd = (\<lambda>s. s @ [DisplayWake]),
      DisplayFrameSyncMessage = msg5 0\<rparr>"

definition dispatcher0 ::
  "bool \<Rightarrow> call list Widget option \<Rightarrow> (nat, call list, nat) EventDispatcher" where
  "dispatcher0 asleep captured =
     \<lparr>top_widget = panel, captured_widget = captured, display_sleep = asleep,
      encoder_last = 0, touch_manager = manager0,
      message_map = \<lparr>map_tbl = [None, None, None]\<rparr>, serviced = [], world = []\<rparr>"

text \<open>
  The inputs of a cycle: one message for slot 1 in the application queue, one for
  slot 2 in the local queue, and a frame of the touch panel without contact.
\<close>

definition inputs0 :: "bool list \<Rightarrow> nat inputs" where
  "inputs0 sw =
     \<lparr>application_queue = [msg5 1], app_local_queue = [msg5 2], switches_state = sw,
      encoder_position = 0, touch_frame = frame0 False 0\<rparr>"


definition waking_handler :: "nat Message \<Rightarrow> bool \<times> call list \<Rightarrow> bool \<times> call list" where
  "waking_handler message r = (False, snd r @ [Handled (payload message)])"

definition asleep_with ::
  "(nat Message \<Rightarrow> bool \<times> call list \<Rightarrow> bool \<times> call list) \<Rightarrow>
     (nat, call list, nat) EventDispatcher" where
  "asleep_with h = (dispatcher0 True None)\<lparr>message_map := \<lparr>map_tbl = [None, Some h, None]\<rparr>\<rparr>"

text \<open>
  A widget and its only child, both visible, both declining every touch event; the
  child lies inside the parent.
\<close>

definition card :: "call list Widget" where
  "card = leaf 21 (box 0 0 50 50) False"

definition deck :: "call list Widget" where
  "deck = Widget 20 False (box 0 0 100 100) (log_touch 20 False) (log_key 20 False)
            (log_encoder 20 False) [card]"

definition on_deck :: "(nat, call list, nat) EventDispatcher" where
  "on_deck = (dispatcher0 False (Some sibling_B))\<lparr>top_widget := deck\<rparr>"

section \<open>Properties of the message handler map\<close>

lemma send_eq:
  "send m message s =
     Inr (m, case registered m (msg_id message) of
               Some f \<Rightarrow> f message s
             | None \<Rightarrow> s)"
  by (simp add: send_def registered_def at_def ID_MAX_def split: option.splits)

text \<open>
  C5. Registering a handler for an identifier whose slot already holds a handler panics
  with \<open>MsgDblReg\<close> and returns no map; registering into an empty slot returns the map
  with the handler stored in that slot and every other slot as it was.
\<close>

theorem register_handler_double_panics:
  "(slot m i = Some (Some f) \<longrightarrow>
      register_handler m i handler = Inl (Panic ''MsgDblReg''))
   \<and> (slot m i = Some None \<longrightarrow>
      (\<exists>m'. register_handler m i handler = Inr m'
         \<and> slot m' i = Some handler
         \<and> ID_MAX m' = ID_MAX m
         \<and> (\<forall>j. j \<noteq> i \<longrightarrow> slot m' j = slot m j)))"
  by (auto simp: slot_def register_handler_def at_def chDbgPanic_def ID_MAX_def
      split: if_splits)

theorem register_handler_double_panics_witness:
  "slot map3 1 = Some (Some (note_handler 7))
   \<and> register_handler map3 1 (Some (note_handler 9)) = Inl (Panic ''MsgDblReg'')
   \<and> slot map3 2 = Some None
   \<and> (\<exists>m'. register_handler map3 2 (Some (note_handler 9)) = Inr m'
         \<and> slot m' 2 = Some (Some (note_handler 9)))"
proof -
  have a: "slot map3 1 = Some (Some (note_handler 7))"
    by (simp add: slot_def map3_def ID_MAX_def)
  have b: "slot map3 2 = Some None"
    by (simp add: slot_def map3_def ID_MAX_def)
  from register_handler_double_panics [of map3 1 "note_handler 7" "Some (note_handler 9)"] a
  have c: "register_handler map3 1 (Some (note_handler 9)) = Inl (Panic ''MsgDblReg'')"
    by blast
  from register_handler_double_panics [of map3 2 "note_handler 7" "Some (note_handler 9)"] b
  have d: "\<exists>m'. register_handler map3 2 (Some (note_handler 9)) = Inr m'
         \<and> slot m' 2 = Some (Some (note_handler 9))"
    by blast
  from a b c d show ?thesis by blast
qed

text \<open>
  C6. \<open>send\<close> never halts and never changes the map. It runs the handler on the message
  exactly when the identifier is below \<open>MAX\<close> and its slot holds a handler; in every
  other case the state is returned as it was. After \<open>unregister_handler\<close> has cleared
  the slot of an identifier, \<open>send\<close> of a message with that identifier changes nothing.
\<close>

theorem send_invokes_registered_only:
  "send m message s =
     Inr (m, case registered m (msg_id message) of
               Some f \<Rightarrow> f message s
             | None \<Rightarrow> s)
   \<and> (unregister_handler m i = Inr m' \<longrightarrow> msg_id message = i \<longrightarrow>
        send m' message s = Inr (m', s))"
  by (auto simp: send_eq registered_def unregister_handler_def at_def ID_MAX_def
      split: if_splits)

theorem send_invokes_registered_only_witness:
  "send map3 (msg5 1) [] = Inr (map3, [7, 5])
   \<and> send map3 (msg5 2) [] = Inr (map3, [])
   \<and> send map3 (msg5 3) [] = Inr (map3, [])
   \<and> unregister_handler map3 1 = Inr map3_cleared
   \<and> send map3_cleared (msg5 1) [] = Inr (map3_cleared, [])"
proof -
  have u: "unregister_handler map3 1 = Inr map3_cleared"
    by (simp add: unregister_handler_def at_def map3_def map3_cleared_def)
  have r1: "registered map3 1 = Some (note_handler 7)"
    by (simp add: registered_def map3_def ID_MAX_def)
  have r2: "registered map3 2 = None"
    by (simp add: registered_def map3_def ID_MAX_def)
  have r3: "registered map3 3 = None"
    by (simp add: registered_def map3_def ID_MAX_def)
  have s1: "send map3 (msg5 1) [] = Inr (map3, [7, 5])"
    using send_invokes_registered_only [of map3 "msg5 1" "[]" 1 map3] r1
    by (simp add: note_handler_def msg5_def)
  have s2: "send map3 (msg5 2) [] = Inr (map3, [])"
    using send_invokes_registered_only [of map3 "msg5 2" "[]" 1 map3] r2
    by (simp add: msg5_def)
  have s3: "send map3 (msg5 3) [] = Inr (map3, [])"
    using send_invokes_registered_only [of map3 "msg5 3" "[]" 1 map3] r3
    by (simp add: msg5_def)
  have s4: "send map3_cleared (msg5 1) [] = Inr (map3_cleared, [])"
    using send_invokes_registered_only [of map3 "msg5 1" "[]" 1 map3_cleared] u
    by (simp add: msg5_def)
  from u s1 s2 s3 s4 show ?thesis by simp
qed

section \<open>Properties of the touch manager\<close>

lemma feeds_append:
  "feeds env (fs @ gs) m =
     (let (m1, es1) = feeds env fs m; (m2, es2) = feeds env gs m1 in (m2, es1 @ es2))"
  by (induction fs arbitrary: m) (simp_all add: case_prod_beta)

lemma feeds_Cons:
  "feeds env (f # fs) m =
     (fst (feeds env fs (fst (feed env f m))),
      snd (feed env f m) @ snd (feeds env fs (fst (feed env f m))))"
  by (simp add: case_prod_beta)

lemma feed_start:
  "state m = NoTouch \<Longrightarrow> touch_qualified env f \<Longrightarrow>
   point_stable env (filters_feed env f (filters m)) \<Longrightarrow>
   feed env f m =
     (m\<lparr>filters := filters_feed env f (filters m), state := TouchDetected\<rparr>, [touch_started])"
  by (simp add: feed_def touch_qualified_def Let_def)

lemma feed_wait:
  "state m = NoTouch \<Longrightarrow> touch_qualified env f \<Longrightarrow>
   \<not> point_stable env (filters_feed env f (filters m)) \<Longrightarrow>
   feed env f m = (m\<lparr>filters := filters_feed env f (filters m)\<rparr>, [])"
  by (simp add: feed_def touch_qualified_def Let_def)

lemma feed_idle:
  "state m = NoTouch \<Longrightarrow> \<not> touch_qualified env f \<Longrightarrow>
   state (fst (feed env f m)) = NoTouch \<and> snd (feed env f m) = []"
  by (auto simp: feed_def touch_qualified_def Let_def)

lemma feed_move:
  "state m = TouchDetected \<Longrightarrow> touch_qualified env f \<Longrightarrow>
   feed env f m =
     (m\<lparr>filters := filters_feed env f (filters m)\<rparr>, [touch_moved])"
  by (simp add: feed_def touch_qualified_def Let_def)

lemma feed_end:
  "state m = TouchDetected \<Longrightarrow> \<not> touch_qualified env f \<Longrightarrow>
   state (fst (feed env f m)) = NoTouch \<and> snd (feed env f m) = [touch_ended]"
  by (auto simp: feed_def touch_qualified_def Let_def)

lemma feeds_moves:
  "state m = TouchDetected \<Longrightarrow> \<forall>f\<in>set fs. touch_qualified env f \<Longrightarrow>
   state (fst (feeds env fs m)) = TouchDetected
   \<and> snd (feeds env fs m) = replicate (length fs) touch_moved"
proof (induction fs arbitrary: m)
  case Nil
  then show ?case by simp
next
  case (Cons f fs)
  let ?m1 = "m\<lparr>filters := filters_feed env f (filters m)\<rparr>"
  from Cons.prems have f: "feed env f m = (?m1, [touch_moved])"
    by (simp add: feed_move)
  from Cons.prems have "state ?m1 = TouchDetected" "\<forall>f\<in>set fs. touch_qualified env f"
    by simp_all
  from Cons.IH [OF this] show ?case
    by (simp add: f feeds_Cons del: feeds.simps)
qed

text \<open>
  C4. Starting in \<open>NoTouch\<close>: a qualified sample (contact, resistance below the
  threshold) after which the point is stable moves the machine to \<open>TouchDetected\<close>
  and calls \<open>touch_started\<close> exactly once; every further qualified sample calls
  \<open>touch_moved\<close> once and never \<open>touch_started\<close>, and the machine stays in
  \<open>TouchDetected\<close>; the first sample that fails the contact or the pressure test
  moves it back to \<open>NoTouch\<close> and calls \<open>touch_ended\<close> exactly once. So the calls
  of the whole run are one \<open>touch_started\<close>, one \<open>touch_moved\<close> per further
  qualified sample, and one \<open>touch_ended\<close>. In \<open>NoTouch\<close> a qualified sample after
  which the point is not stable, and a sample that is not qualified, make no call and
  leave the state as it is.
\<close>

theorem feed_gesture:
  assumes "state m = NoTouch"
    and "touch_qualified env f"
    and "point_stable env (filters_feed env f (filters m))"
    and "\<forall>h\<in>set post. touch_qualified env h"
    and "\<not> touch_qualified env g"
  shows "state (fst (feed env f m)) = TouchDetected
    \<and> snd (feed env f m) = [touch_started]
    \<and> state (fst (feeds env (f # post) m)) = TouchDetected
    \<and> snd (feeds env (f # post) m) = touch_started # replicate (length post) touch_moved
    \<and> state (fst (feeds env (f # post @ [g]) m)) = NoTouch
    \<and> snd (feeds env (f # post @ [g]) m)
        = touch_started # replicate (length post) touch_moved @ [touch_ended]
    \<and> (touch_qualified env u \<and> \<not> point_stable env (filters_feed env u (filters m)) \<longrightarrow>
         state (fst (feed env u m)) = NoTouch \<and> snd (feed env u m) = [])
    \<and> state (fst (feed env g m)) = NoTouch \<and> snd (feed env g m) = []"
proof -
  let ?m1 = "m\<lparr>filters := filters_feed env f (filters m), state := TouchDetected\<rparr>"
  have s: "feed env f m = (?m1, [touch_started])"
    using assms(1-3) by (rule feed_start)
  have t: "state ?m1 = TouchDetected" by simp
  note mv = feeds_moves [OF t assms(4)]
  let ?m2 = "fst (feeds env post ?m1)"
  from mv have "state ?m2 = TouchDetected" by simp
  note en = feed_end [OF this assms(5)]
  have a: "feeds env (post @ [g]) ?m1 =
      (fst (feed env g ?m2), snd (feeds env post ?m1) @ snd (feed env g ?m2))"
    by (simp add: feeds_append case_prod_beta)
  have w: "touch_qualified env u \<and> \<not> point_stable env (filters_feed env u (filters m)) \<longrightarrow>
         state (fst (feed env u m)) = NoTouch \<and> snd (feed env u m) = []"
    using assms(1) by (simp add: feed_wait)
  note i = feed_idle [OF assms(1) assms(5)]
  have r: "state (fst (feed env f m)) = TouchDetected
    \<and> snd (feed env f m) = [touch_started]
    \<and> state (fst (feeds env (f # post) m)) = TouchDetected
    \<and> snd (feeds env (f # post) m) = touch_started # replicate (length post) touch_moved
    \<and> state (fst (feeds env (f # post @ [g]) m)) = NoTouch
    \<and> snd (feeds env (f # post @ [g]) m)
        = touch_started # replicate (length post) touch_moved @ [touch_ended]"
    using mv en by (simp add: s a feeds_Cons del: feeds.simps)
  from r w i show ?thesis by blast
qed

theorem feed_gesture_witness:
  "state manager0 = NoTouch
   \<and> touch_qualified touch_env0 (frame0 True 50)
   \<and> point_stable touch_env0 (filters_feed touch_env0 (frame0 True 50) (filters manager0))
   \<and> \<not> touch_qualified touch_env0 (frame0 True 500)
   \<and> snd (feeds touch_env0
               [frame0 True 50, frame0 True 50, frame0 True 50, frame0 True 500] manager0)
       = [touch_started, touch_moved, touch_moved, touch_ended]
   \<and> state (fst (feeds touch_env0
               [frame0 True 50, frame0 True 50, frame0 True 50, frame0 True 500] manager0))
       = NoTouch"
proof -
  have 1: "state manager0 = NoTouch" by (simp add: manager0_def)
  have 2: "touch_qualified touch_env0 (frame0 True 50)"
    by (simp add: touch_qualified_def touch_env0_def frame0_def samples0_def)
  have 3: "point_stable touch_env0 (filters_feed touch_env0 (frame0 True 50) (filters manager0))"
    by (simp add: touch_env0_def manager0_def)
  have 4: "\<forall>h\<in>set [frame0 True 50, frame0 True 50]. touch_qualified touch_env0 h"
    using 2 by simp
  have 5: "\<not> touch_qualified touch_env0 (frame0 True 500)"
    by (simp add: touch_qualified_def touch_env0_def frame0_def samples0_def)
  from feed_gesture [OF 1 2 3 4 5] 1 2 3 5 show ?thesis
    by (simp del: feeds.simps)
qed

section \<open>Properties of hit testing and touch capture\<close>

lemma touch_children_first_wins:
  "touch_widget child event s = (Some t, s1) \<Longrightarrow>
   touch_children (child # rest) event s = (Some t, s1)"
  by simp

lemma touch_uncovered:
  "\<not> covers w (point event) \<Longrightarrow> touch_widget w event s = (None, s)"
  "\<forall>c\<in>set cs. \<not> covers c (point event) \<Longrightarrow> touch_children cs event s = (None, s)"
  by (induction w event s and cs event s rule: touch_widget_touch_children.induct)
     (auto simp: Let_def)

lemma hit77: "touch_widget panel (touch_at 7 7 Start) [] = (Some sibling_A, [OnTouch 1 Start])"
  by (simp add: panel_def sibling_A_def sibling_B_def leaf_def touch_at_def contains_def box_def
      log_touch_def)

lemma hit50: "touch_widget panel (touch_at 50 50 Start) [] = (None, [OnTouch 0 Start])"
  by (simp add: panel_def sibling_A_def sibling_B_def leaf_def touch_at_def contains_def box_def
      log_touch_def)

text \<open>
  C1. The claim is that among overlapping children of one parent the child drawn last is
  tested first and is the one returned. The loop of \<open>touch_widget\<close> runs over
  \<open>children()\<close> from the first child on: for the panel with the children A then B,
  both visible, both containing the point (7, 7) and both consuming the event,
  \<open>touch_widget\<close> returns A, the child listed first, and never calls B.
\<close>

theorem touch_widget_returns_first_listed_sibling:
  "children panel = [sibling_A, sibling_B]
   \<and> \<not> hidden sibling_A \<and> \<not> hidden sibling_B
   \<and> contains (screen_rect sibling_A) (point (touch_at 7 7 Start))
   \<and> contains (screen_rect sibling_B) (point (touch_at 7 7 Start))
   \<and> fst (on_touch sibling_A (touch_at 7 7 Start) [])
   \<and> fst (on_touch sibling_B (touch_at 7 7 Start) [])
   \<and> wid sibling_A \<noteq> wid sibling_B
   \<and> touch_widget panel (touch_at 7 7 Start) [] = (Some sibling_A, [OnTouch 1 Start])"
  by (simp add: panel_def sibling_A_def sibling_B_def leaf_def touch_at_def contains_def box_def
      log_touch_def)

lemma on_touch_event_other:
  "event_type event \<noteq> Start \<Longrightarrow>
   on_touch_event d event =
     (case captured_widget d of
        Some w \<Rightarrow> d\<lparr>world := snd (on_touch w event (world d))\<rparr>
      | None \<Rightarrow> d)"
  by (simp add: on_touch_event_def)

lemma on_touch_event_start:
  "event_type event = Start \<Longrightarrow>
   on_touch_event d event =
     (case fst (touch_widget (top_widget d) event (world d)) of
        Some w \<Rightarrow>
          d\<lparr>captured_widget := Some w,
            world := snd (on_touch w event (snd (touch_widget (top_widget d) event (world d))))\<rparr>
      | None \<Rightarrow>
          d\<lparr>captured_widget := None,
            world := snd (touch_widget (top_widget d) event (world d))\<rparr>)"
  by (simp add: on_touch_event_def case_prod_beta split: option.splits)

lemma deliver_others:
  "\<forall>e\<in>set es. event_type e \<noteq> Start \<Longrightarrow>
   foldl on_touch_event d es =
     (case captured_widget d of
        Some w \<Rightarrow> d\<lparr>world := foldl (\<lambda>s e. snd (on_touch w e s)) (world d) es\<rparr>
      | None \<Rightarrow> d)"
proof (induction es arbitrary: d)
  case Nil
  then show ?case by (simp split: option.splits)
next
  case (Cons e es)
  from Cons.prems have e: "event_type e \<noteq> Start" and es: "\<forall>e\<in>set es. event_type e \<noteq> Start"
    by simp_all
  show ?case
    by (cases "captured_widget d") (simp_all add: on_touch_event_other [OF e] Cons.IH [OF es])
qed

lemma others: "\<forall>e\<in>set [touch_at 15 15 Move, touch_at 15 15 End]. event_type e \<noteq> Start"
  by (simp add: touch_at_def)

lemma fold_A:
  "foldl (\<lambda>s e. snd (on_touch sibling_A e s)) s0 [touch_at 15 15 Move, touch_at 15 15 End]
     = s0 @ [OnTouch 1 Move, OnTouch 1 End]"
  by (simp add: sibling_A_def leaf_def log_touch_def touch_at_def)

lemma others_after_end:
  "\<forall>e\<in>set [touch_at 15 15 End, touch_at 15 15 Move]. event_type e \<noteq> Start"
  by (simp add: touch_at_def)

lemma fold_B:
  "foldl (\<lambda>s e. snd (on_touch sibling_B e s)) [] [touch_at 15 15 End, touch_at 15 15 Move]
     = [OnTouch 2 End, OnTouch 2 Move]"
  by (simp add: sibling_B_def leaf_def log_touch_def touch_at_def)

lemma captured_dispatcher0: "captured_widget ((dispatcher0 a c)\<lparr>world := s\<rparr>) = c"
  by (simp add: dispatcher0_def)

lemma dispatcher0_sel:
  "world (dispatcher0 a c) = []" "top_widget (dispatcher0 a c) = panel"
  "display_sleep (dispatcher0 a c) = a" "serviced (dispatcher0 a c) = []"
  "captured_widget (dispatcher0 a c) = c"
  by (simp_all add: dispatcher0_def)

lemma start77:
  "on_touch_event (dispatcher0 False None) (touch_at 7 7 Start)
     = (dispatcher0 False (Some sibling_A))\<lparr>world := [OnTouch 1 Start, OnTouch 1 Start]\<rparr>"
proof -
  have "event_type (touch_at 7 7 Start) = Start" by (simp add: touch_at_def)
  note on_touch_event_start [OF this, of "dispatcher0 False None"]
  moreover have "top_widget (dispatcher0 False None) = panel" "world (dispatcher0 False None) = []"
    by (simp_all add: dispatcher0_def)
  moreover have "snd (on_touch sibling_A (touch_at 7 7 Start) [OnTouch 1 Start])
      = [OnTouch 1 Start, OnTouch 1 Start]"
    by (simp add: sibling_A_def leaf_def log_touch_def touch_at_def)
  moreover have "(dispatcher0 False None)\<lparr>captured_widget := Some sibling_A,
       world := [OnTouch 1 Start, OnTouch 1 Start]\<rparr>
     = (dispatcher0 False (Some sibling_A))\<lparr>world := [OnTouch 1 Start, OnTouch 1 Start]\<rparr>"
    by (simp add: dispatcher0_def)
  ultimately show ?thesis by (simp add: hit77)
qed

text \<open>
  C3. A \<open>Start\<close> event sets the captured widget to the result of the hit test from the
  top widget. Every later event of the gesture that is not a \<open>Start\<close> (a \<open>Move\<close> or
  an \<open>End\<close>) runs no hit test: the dispatcher after the events is the one after the
  \<open>Start\<close> with the world changed by \<open>on_touch\<close> of the captured widget, once per
  event and in order, whatever the points of the events are.
\<close>

theorem start_captures_then_delivers:
  assumes "event_type start = Start" and "\<forall>e\<in>set es. event_type e \<noteq> Start"
  shows "captured_widget (on_touch_event d start)
           = fst (touch_widget (top_widget d) start (world d))
    \<and> (\<forall>w. captured_widget (on_touch_event d start) = Some w \<longrightarrow>
          foldl on_touch_event (on_touch_event d start) es =
            (on_touch_event d start)
              \<lparr>world := foldl (\<lambda>s e. snd (on_touch w e s)) (world (on_touch_event d start)) es\<rparr>)"
  using deliver_others [OF assms(2), of "on_touch_event d start"]
  by (auto simp: on_touch_event_start [OF assms(1)] split: option.splits)

theorem start_captures_then_delivers_witness:
  "event_type (touch_at 7 7 Start) = Start
   \<and> event_type (touch_at 15 15 Move) \<noteq> Start \<and> event_type (touch_at 15 15 End) \<noteq> Start
   \<and> \<not> contains (screen_rect sibling_A) (point (touch_at 15 15 Move))
   \<and> contains (screen_rect sibling_B) (point (touch_at 15 15 Move))
   \<and> captured_widget (on_touch_event (dispatcher0 False None) (touch_at 7 7 Start))
       = Some sibling_A
   \<and> foldl on_touch_event (on_touch_event (dispatcher0 False None) (touch_at 7 7 Start))
        [touch_at 15 15 Move, touch_at 15 15 End]
       = (dispatcher0 False (Some sibling_A))
           \<lparr>world := [OnTouch 1 Start, OnTouch 1 Start, OnTouch 1 Move, OnTouch 1 End]\<rparr>"
proof -
  have s: "event_type (touch_at 7 7 Start) = Start" by (simp add: touch_at_def)
  have c: "captured_widget (on_touch_event (dispatcher0 False None) (touch_at 7 7 Start))
       = Some sibling_A"
    by (simp only: start77 captured_dispatcher0)
  from start_captures_then_delivers [OF s others, of "dispatcher0 False None"] c
  have "foldl on_touch_event (on_touch_event (dispatcher0 False None) (touch_at 7 7 Start))
        [touch_at 15 15 Move, touch_at 15 15 End]
       = (on_touch_event (dispatcher0 False None) (touch_at 7 7 Start))
           \<lparr>world := foldl (\<lambda>s e. snd (on_touch sibling_A e s))
              (world (on_touch_event (dispatcher0 False None) (touch_at 7 7 Start)))
              [touch_at 15 15 Move, touch_at 15 15 End]\<rparr>"
    by blast
  then have f: "foldl on_touch_event (on_touch_event (dispatcher0 False None) (touch_at 7 7 Start))
        [touch_at 15 15 Move, touch_at 15 15 End]
       = (dispatcher0 False (Some sibling_A))
           \<lparr>world := [OnTouch 1 Start, OnTouch 1 Start, OnTouch 1 Move, OnTouch 1 End]\<rparr>"
    by (simp del: foldl.simps add: start77 fold_A)
  have g: "\<not> contains (screen_rect sibling_A) (point (touch_at 15 15 Move))"
    "contains (screen_rect sibling_B) (point (touch_at 15 15 Move))"
    "event_type (touch_at 15 15 Move) \<noteq> Start" "event_type (touch_at 15 15 End) \<noteq> Start"
    by (simp_all add: sibling_A_def sibling_B_def leaf_def contains_def box_def touch_at_def)
  from s g c f show ?thesis by blast
qed

text \<open>
  The hit test is a walk along the widgets it may probe: it calls \<open>on_touch\<close> of each
  of them in turn, in the state the calls before have left, and stops at the first that
  consumes the event, which it returns.
\<close>

lemma bubble_walk_append:
  "bubble_walk respond (xs @ ys) s =
     (case bubble_walk respond xs s of
        (Some v, s1) \<Rightarrow> (Some v, s1)
      | (None, s1) \<Rightarrow> bubble_walk respond ys s1)"
  by (induction xs arbitrary: s) (simp_all add: case_prod_beta)

lemma probed_Widget:
  "probed (Widget a h r ot ok oe cs) p =
     (if h then []
      else concat (map (\<lambda>c. probed c p) cs)
           @ (if contains r p then [Widget a h r ot ok oe cs] else []))"
  by (simp add: probed_def filter_concat comp_def)

lemma hit_test_walk:
  "touch_widget w event s = bubble_walk (\<lambda>v. on_touch v event) (probed w (point event)) s"
  "touch_children cs event s =
     bubble_walk (\<lambda>v. on_touch v event) (concat (map (\<lambda>c. probed c (point event)) cs)) s"
proof (induction w event s and cs event s rule: touch_widget_touch_children.induct)
  case (1 a h r ot ok oe cs event s)
  show ?case
  proof (cases h)
    case True
    then show ?thesis by (simp add: probed_Widget)
  next
    case False
    with "1.IH" have c: "touch_children cs event s =
        bubble_walk (\<lambda>v. on_touch v event) (concat (map (\<lambda>c. probed c (point event)) cs)) s"
      by simp
    show ?thesis
      using False
      by (simp add: probed_Widget bubble_walk_append c [symmetric] Let_def case_prod_beta
          split: option.splits bool.splits)
  qed
next
  case (2 event s)
  show ?case by simp
next
  case (3 child rest event s)
  show ?case
  proof (cases "touch_widget child event s")
    case (Pair t s1)
    show ?thesis
    proof (cases t)
      case None
      with Pair "3.IH" show ?thesis
        by (simp add: bubble_walk_append)
    next
      case (Some v)
      with Pair "3.IH"(1) show ?thesis
        by (simp add: bubble_walk_append)
    qed
  qed
qed

lemma walk_without_consumer:
  "(fst (bubble_walk respond vs s) = None) = all_decline respond vs s"
  "all_decline respond vs s \<Longrightarrow>
   snd (bubble_walk respond vs s) = foldl (\<lambda>s v. snd (respond v s)) s vs"
  by (induction vs arbitrary: s) (simp_all add: case_prod_beta)

lemma probed_empty: "(probed w p = []) = (\<not> covers w p)"
proof (induction w)
  case (Widget a h r ot ok oe cs)
  then show ?case by (auto simp: probed_Widget)
qed

text \<open>
  C9, as the code has it. When the hit test of a \<open>Start\<close> event resolves no widget,
  the captured widget becomes null, whatever widget was captured before, and nothing is
  delivered: the world after the event is the world the hit test left. Every later
  event of the gesture that is not a \<open>Start\<close> changes nothing, so no \<open>on_touch\<close> is
  called for it. The hit test of the \<open>Start\<close> itself has called \<open>on_touch\<close> once on
  each visible widget whose rectangle contains the point (visible: not hidden and below
  no hidden widget), children before their parent and siblings in the order of
  \<open>children()\<close>, and each of them has declined. So the \<open>Start\<close> calls no
  \<open>on_touch\<close> at all exactly when no visible widget contains the point.
\<close>

theorem start_without_hit_releases_capture:
  assumes "event_type start = Start"
    and "fst (touch_widget (top_widget d) start (world d)) = None"
    and "\<forall>e\<in>set es. event_type e \<noteq> Start"
  shows "on_touch_event d start =
           d\<lparr>captured_widget := None,
             world := foldl (\<lambda>s v. snd (on_touch v start s)) (world d)
                        (probed (top_widget d) (point start))\<rparr>
    \<and> all_decline (\<lambda>v. on_touch v start) (probed (top_widget d) (point start)) (world d)
    \<and> foldl on_touch_event (on_touch_event d start) es = on_touch_event d start
    \<and> (probed (top_widget d) (point start) = []) = (\<not> covers (top_widget d) (point start))
    \<and> set (probed (top_widget d) (point start)) =
        {v \<in> set (visible_widgets (top_widget d)). contains (screen_rect v) (point start)}"
proof -
  let ?vs = "probed (top_widget d) (point start)"
  from assms(2) have n: "fst (bubble_walk (\<lambda>v. on_touch v start) ?vs (world d)) = None"
    by (simp add: hit_test_walk(1))
  then have dec: "all_decline (\<lambda>v. on_touch v start) ?vs (world d)"
    by (simp add: walk_without_consumer(1))
  have w: "snd (touch_widget (top_widget d) start (world d)) =
      foldl (\<lambda>s v. snd (on_touch v start s)) (world d) ?vs"
    using walk_without_consumer(2) [OF dec] by (simp add: hit_test_walk(1))
  have a: "on_touch_event d start =
           d\<lparr>captured_widget := None,
             world := foldl (\<lambda>s v. snd (on_touch v start s)) (world d) ?vs\<rparr>"
    by (simp add: on_touch_event_start [OF assms(1)] assms(2) w)
  have b: "foldl on_touch_event (on_touch_event d start) es = on_touch_event d start"
    using deliver_others [OF assms(3), of "on_touch_event d start"] by (simp add: a)
  have c: "(?vs = []) = (\<not> covers (top_widget d) (point start))"
    by (rule probed_empty)
  have e: "set ?vs =
        {v \<in> set (visible_widgets (top_widget d)). contains (screen_rect v) (point start)}"
    by (simp add: probed_def)
  from a dec b c e show ?thesis by blast
qed

lemma probed_deck:
  "probed deck (point (touch_at 7 7 Start)) = [card, deck]"
  "probed deck (point (touch_at 500 500 Start)) = []"
  by (simp_all add: probed_Widget deck_def card_def leaf_def touch_at_def contains_def box_def)

lemma hit_deck: "touch_widget deck (touch_at 7 7 Start) [] = (None, [OnTouch 21 Start, OnTouch 20 Start])"
  by (simp add: deck_def card_def leaf_def touch_at_def contains_def box_def log_touch_def)

lemma fold_deck:
  "foldl (\<lambda>s v. snd (on_touch v (touch_at 7 7 Start) s)) [] [card, deck]
     = [OnTouch 21 Start, OnTouch 20 Start]"
  by (simp add: deck_def card_def leaf_def touch_at_def log_touch_def)

lemma on_deck_sel:
  "top_widget on_deck = deck" "world on_deck = []" "captured_widget on_deck = Some sibling_B"
  by (simp_all add: on_deck_def dispatcher0_def)

theorem start_without_hit_releases_capture_witness:
  "event_type (touch_at 7 7 Start) = Start
   \<and> captured_widget on_deck = Some sibling_B
   \<and> fst (touch_widget (top_widget on_deck) (touch_at 7 7 Start) (world on_deck)) = None
   \<and> probed (top_widget on_deck) (point (touch_at 7 7 Start)) = [card, deck]
   \<and> on_touch_event on_deck (touch_at 7 7 Start)
       = on_deck\<lparr>captured_widget := None, world := [OnTouch 21 Start, OnTouch 20 Start]\<rparr>
   \<and> foldl on_touch_event (on_touch_event on_deck (touch_at 7 7 Start))
        [touch_at 15 15 Move, touch_at 15 15 End]
       = on_deck\<lparr>captured_widget := None, world := [OnTouch 21 Start, OnTouch 20 Start]\<rparr>
   \<and> \<not> covers (top_widget on_deck) (point (touch_at 500 500 Start))
   \<and> on_touch_event on_deck (touch_at 500 500 Start)
       = on_deck\<lparr>captured_widget := None, world := []\<rparr>"
proof -
  have s: "event_type (touch_at 7 7 Start) = Start" "event_type (touch_at 500 500 Start) = Start"
    by (simp_all add: touch_at_def)
  have h: "fst (touch_widget (top_widget on_deck) (touch_at 7 7 Start) (world on_deck)) = None"
    by (simp only: on_deck_sel hit_deck fst_conv)
  have p: "probed (top_widget on_deck) (point (touch_at 7 7 Start)) = [card, deck]"
    "probed (top_widget on_deck) (point (touch_at 500 500 Start)) = []"
    by (simp_all only: on_deck_sel probed_deck)
  have h5: "fst (touch_widget (top_widget on_deck) (touch_at 500 500 Start) (world on_deck)) = None"
    by (simp add: hit_test_walk(1) p(2))
  note a = start_without_hit_releases_capture [OF s(1) h others]
  note b = start_without_hit_releases_capture [OF s(2) h5 others]
  from a have "on_touch_event on_deck (touch_at 7 7 Start) =
      on_deck\<lparr>captured_widget := None,
        world := foldl (\<lambda>s v. snd (on_touch v (touch_at 7 7 Start) s)) (world on_deck)
                   (probed (top_widget on_deck) (point (touch_at 7 7 Start)))\<rparr>"
    by blast
  then have A: "on_touch_event on_deck (touch_at 7 7 Start)
       = on_deck\<lparr>captured_widget := None, world := [OnTouch 21 Start, OnTouch 20 Start]\<rparr>"
    by (simp only: on_deck_sel probed_deck fold_deck)
  from a have "foldl on_touch_event (on_touch_event on_deck (touch_at 7 7 Start))
        [touch_at 15 15 Move, touch_at 15 15 End]
      = on_touch_event on_deck (touch_at 7 7 Start)"
    by blast
  from this A have B: "foldl on_touch_event (on_touch_event on_deck (touch_at 7 7 Start))
        [touch_at 15 15 Move, touch_at 15 15 End]
       = on_deck\<lparr>captured_widget := None, world := [OnTouch 21 Start, OnTouch 20 Start]\<rparr>"
    by (rule trans)
  from b have "(probed (top_widget on_deck) (point (touch_at 500 500 Start)) = [])
      = (\<not> covers (top_widget on_deck) (point (touch_at 500 500 Start)))"
    by blast
  with p(2) have C: "\<not> covers (top_widget on_deck) (point (touch_at 500 500 Start))"
    by simp
  from b have "on_touch_event on_deck (touch_at 500 500 Start) =
      on_deck\<lparr>captured_widget := None,
        world := foldl (\<lambda>s v. snd (on_touch v (touch_at 500 500 Start) s)) (world on_deck)
                   (probed (top_widget on_deck) (point (touch_at 500 500 Start)))\<rparr>"
    by blast
  then have D: "on_touch_event on_deck (touch_at 500 500 Start)
       = on_deck\<lparr>captured_widget := None, world := []\<rparr>"
    by (simp only: on_deck_sel probed_deck foldl_Nil)
  from s(1) on_deck_sel(3) h p(1) A B C D show ?thesis by blast
qed

text \<open>
  C9 as stated fails: it has the \<open>Start\<close> call no \<open>on_touch\<close> at all. For the panel
  and a \<open>Start\<close> at (50, 50), which only the panel contains and which the panel
  declines, the hit test resolves no widget, and yet \<open>on_touch\<close> of the panel has been
  called once by the hit test.
\<close>

theorem start_without_hit_still_probes:
  "event_type (touch_at 50 50 Start) = Start
   \<and> fst (touch_widget (top_widget (dispatcher0 False None)) (touch_at 50 50 Start)
            (world (dispatcher0 False None))) = None
   \<and> world (dispatcher0 False None) = []
   \<and> world (on_touch_event (dispatcher0 False None) (touch_at 50 50 Start)) = [OnTouch 0 Start]"
  by (simp add: on_touch_event_def dispatcher0_def hit50) (simp add: touch_at_def)

text \<open>
  C10. An event that is not a \<open>Start\<close> leaves \<open>captured_widget\<close>, and every field
  but the world, as it was: after any sequence of \<open>Move\<close> and \<open>End\<close> events the
  captured widget is the one captured before, and each of the events, an \<open>End\<close> and
  the events after it included, has been delivered to \<open>on_touch\<close> of that widget (to
  none when the reference is null).
\<close>

theorem captured_widget_kept_by_move_end:
  assumes "\<forall>e\<in>set es. event_type e \<noteq> Start"
  shows "captured_widget (foldl on_touch_event d es) = captured_widget d
    \<and> foldl on_touch_event d es =
        d\<lparr>world := (case captured_widget d of
                       Some w \<Rightarrow> foldl (\<lambda>s e. snd (on_touch w e s)) (world d) es
                     | None \<Rightarrow> world d)\<rparr>"
  using deliver_others [OF assms, of d] by (simp split: option.splits)

theorem captured_widget_kept_by_move_end_witness:
  "event_type (touch_at 15 15 End) \<noteq> Start \<and> event_type (touch_at 15 15 Move) \<noteq> Start
   \<and> captured_widget (foldl on_touch_event (dispatcher0 False (Some sibling_B))
        [touch_at 15 15 End, touch_at 15 15 Move]) = Some sibling_B
   \<and> world (foldl on_touch_event (dispatcher0 False (Some sibling_B))
        [touch_at 15 15 End, touch_at 15 15 Move]) = [OnTouch 2 End, OnTouch 2 Move]"
proof -
  have c: "captured_widget (dispatcher0 False (Some sibling_B)) = Some sibling_B"
    "world (dispatcher0 False (Some sibling_B)) = []"
    by (simp_all add: dispatcher0_def)
  note k = captured_widget_kept_by_move_end [OF others_after_end, of "dispatcher0 False (Some sibling_B)"]
  from k have "captured_widget (foldl on_touch_event (dispatcher0 False (Some sibling_B))
        [touch_at 15 15 End, touch_at 15 15 Move])
      = captured_widget (dispatcher0 False (Some sibling_B))"
    by blast
  then have 1: "captured_widget (foldl on_touch_event (dispatcher0 False (Some sibling_B))
        [touch_at 15 15 End, touch_at 15 15 Move]) = Some sibling_B"
    by (simp only: c)
  from k have "foldl on_touch_event (dispatcher0 False (Some sibling_B))
        [touch_at 15 15 End, touch_at 15 15 Move]
      = (dispatcher0 False (Some sibling_B))\<lparr>world := [OnTouch 2 End, OnTouch 2 Move]\<rparr>"
    by (simp only: c option.case fold_B)
  then have 2: "world (foldl on_touch_event (dispatcher0 False (Some sibling_B))
        [touch_at 15 15 End, touch_at 15 15 Move]) = [OnTouch 2 End, OnTouch 2 Move]"
    by (simp del: foldl.simps)
  have 3: "event_type (touch_at 15 15 Move) \<noteq> Start" "event_type (touch_at 15 15 End) \<noteq> Start"
    by (simp_all add: touch_at_def)
  from 1 2 3 show ?thesis by blast
qed

section \<open>Properties of key bubbling\<close>

lemma bubble_None: "bubble parent_of respond None s = Some (None, s)"
  by (subst bubble.simps) simp

lemma bubble_Some:
  "bubble parent_of respond (Some w) s =
     (if fst (respond w s) then Some (Some w, snd (respond w s))
      else bubble parent_of respond (parent_of w) (snd (respond w s)))"
  by (subst bubble.simps) (simp add: case_prod_beta)

text \<open>
  On a chain of parents that ends, the loop ends, and it does what the walk along the
  list of the chain does.
\<close>

lemma bubble_chain:
  "parent_chain parent_of target ws \<Longrightarrow>
   bubble parent_of respond target s = Some (bubble_walk respond ws s)"
proof (induction ws arbitrary: target s)
  case Nil
  then show ?case by (cases target) (simp_all add: bubble_None)
next
  case (Cons v vs)
  then obtain w where t: "target = Some w" by (cases target) simp_all
  with Cons.prems have v: "v = w" and c: "parent_chain parent_of (parent_of w) vs" by simp_all
  show ?case
    by (simp add: t v bubble_Some Cons.IH [OF c] case_prod_beta)
qed

text \<open>
  When the answer of each widget does not depend on the world, the walk stops at the
  first widget of the chain that consumes the event.
\<close>

lemma bubble_walk_fixed_answers:
  "\<forall>w\<in>set ws. \<forall>s. fst (respond w s) = c w \<Longrightarrow>
   fst (bubble_walk respond ws s) = find c ws"
  by (induction ws arbitrary: s) (simp_all add: case_prod_beta)

lemma wids: "wid key_leaf = 12" "wid key_mid = 11" "wid key_root = 10" "wid key_top = 9"
  by (simp_all add: key_leaf_def key_mid_def key_root_def key_top_def)

lemma chain_leaf:
  "parent_chain parent0 (Some key_leaf) [key_leaf, key_mid, key_root, key_top]"
  by (simp add: parent0_def wids)

lemma chain_root: "parent_chain parent0 (Some key_root) [key_root, key_top]"
  by (simp add: parent0_def wids)

lemma walk_leaf:
  "bubble_walk (\<lambda>w. on_key w 4) [key_leaf, key_mid, key_root, key_top] []
     = (Some key_mid, [OnKey 12 4, OnKey 11 4])"
  by (simp add: key_leaf_def key_mid_def log_key_def)

lemma walk_root:
  "bubble_walk (\<lambda>w. on_key w 4) [key_root, key_top] [] = (None, [OnKey 10 4, OnKey 9 4])"
  by (simp add: key_root_def key_top_def log_key_def)

lemma env0_sel:
  "parent (env0 f) = parent0" "focus_widget (env0 f) s = Some f"
  "focus_update (env0 f) tw event s = s @ [FocusUpdate event]"
  by (simp_all add: env0_def)

text \<open>
  C8. Let \<open>ws\<close> be the chain of parents of the focused widget: the focused widget
  first, then its parent, up to the widget whose parent is null. For every key event,
  \<open>event_bubble_key\<close> returns; it has called \<open>on_key\<close> of the widgets of the chain in
  order, from the focused widget on, up to and including the first that consumed the
  event, or of all of them when none did; it returns true exactly when one consumed the
  event. The loop of \<open>handle_switches\<close> then hands the event to \<open>update\<close> of the focus
  manager exactly when no widget of the chain consumed it. The walk along the chain is
  \<open>bubble_walk\<close>; when the answer of each widget to the event is fixed, a widget
  consumed the event exactly when some widget of the chain answers true.
\<close>

theorem key_bubbles_up_parent_chain:
  assumes "parent_chain (parent env) (focus_widget env (world d)) ws"
  shows "event_bubble_key env event d =
           Inr (fst (bubble_walk (\<lambda>w. on_key w event) ws (world d)) \<noteq> None,
                d\<lparr>world := snd (bubble_walk (\<lambda>w. on_key w event) ws (world d))\<rparr>)
    \<and> handle_switch env event d =
           Inr (d\<lparr>world :=
                  (if fst (bubble_walk (\<lambda>w. on_key w event) ws (world d)) = None
                   then focus_update env (top_widget d) event
                          (snd (bubble_walk (\<lambda>w. on_key w event) ws (world d)))
                   else snd (bubble_walk (\<lambda>w. on_key w event) ws (world d)))\<rparr>)
    \<and> ((\<forall>w\<in>set ws. \<forall>s. fst (on_key w event s) = c w) \<longrightarrow>
         (fst (bubble_walk (\<lambda>w. on_key w event) ws (world d)) \<noteq> None) = (\<exists>w\<in>set ws. c w))"
proof -
  have a: "event_bubble_key env event d =
           Inr (fst (bubble_walk (\<lambda>w. on_key w event) ws (world d)) \<noteq> None,
                d\<lparr>world := snd (bubble_walk (\<lambda>w. on_key w event) ws (world d))\<rparr>)"
    by (simp add: event_bubble_key_def bubble_chain [OF assms] case_prod_beta)
  have b: "handle_switch env event d =
           Inr (d\<lparr>world :=
                  (if fst (bubble_walk (\<lambda>w. on_key w event) ws (world d)) = None
                   then focus_update env (top_widget d) event
                          (snd (bubble_walk (\<lambda>w. on_key w event) ws (world d)))
                   else snd (bubble_walk (\<lambda>w. on_key w event) ws (world d)))\<rparr>)"
    by (simp add: a handle_switch_def then_do_def)
  have c: "(\<forall>w\<in>set ws. \<forall>s. fst (on_key w event s) = c w) \<longrightarrow>
         (fst (bubble_walk (\<lambda>w. on_key w event) ws (world d)) \<noteq> None) = (\<exists>w\<in>set ws. c w)"
    using bubble_walk_fixed_answers
      [where respond = "\<lambda>w. on_key w event" and c = c and ws = ws and s = "world d"]
    by (auto simp: find_None_iff)
  from a b c show ?thesis by blast
qed

theorem key_bubbles_up_parent_chain_witness:
  "parent_chain (parent (env0 key_leaf))
      (focus_widget (env0 key_leaf) (world (dispatcher0 False None)))
      [key_leaf, key_mid, key_root, key_top]
   \<and> event_bubble_key (env0 key_leaf) 4 (dispatcher0 False None)
       = Inr (True, (dispatcher0 False None)\<lparr>world := [OnKey 12 4, OnKey 11 4]\<rparr>)
   \<and> handle_switch (env0 key_leaf) 4 (dispatcher0 False None)
       = Inr ((dispatcher0 False None)\<lparr>world := [OnKey 12 4, OnKey 11 4]\<rparr>)
   \<and> parent_chain (parent (env0 key_root))
      (focus_widget (env0 key_root) (world (dispatcher0 False None))) [key_root, key_top]
   \<and> event_bubble_key (env0 key_root) 4 (dispatcher0 False None)
       = Inr (False, (dispatcher0 False None)\<lparr>world := [OnKey 10 4, OnKey 9 4]\<rparr>)
   \<and> handle_switch (env0 key_root) 4 (dispatcher0 False None)
       = Inr ((dispatcher0 False None)\<lparr>world := [OnKey 10 4, OnKey 9 4, FocusUpdate 4]\<rparr>)
   \<and> list_all (\<lambda>w. fst (on_key w 4 []) = (wid w = 11)) [key_leaf, key_mid, key_root, key_top]"
proof -
  have 1: "parent_chain (parent (env0 key_leaf))
      (focus_widget (env0 key_leaf) (world (dispatcher0 False None)))
      [key_leaf, key_mid, key_root, key_top]"
    by (simp only: env0_sel chain_leaf)
  have 2: "parent_chain (parent (env0 key_root))
      (focus_widget (env0 key_root) (world (dispatcher0 False None))) [key_root, key_top]"
    by (simp only: env0_sel chain_root)
  note a = key_bubbles_up_parent_chain [OF 1, of 4]
  note b = key_bubbles_up_parent_chain [OF 2, of 4]
  from a have a1: "event_bubble_key (env0 key_leaf) 4 (dispatcher0 False None)
       = Inr (True, (dispatcher0 False None)\<lparr>world := [OnKey 12 4, OnKey 11 4]\<rparr>)"
    and a2: "handle_switch (env0 key_leaf) 4 (dispatcher0 False None)
       = Inr ((dispatcher0 False None)\<lparr>world := [OnKey 12 4, OnKey 11 4]\<rparr>)"
    by (simp_all del: bubble_walk.simps add: dispatcher0_sel walk_leaf)
  from b have b1: "event_bubble_key (env0 key_root) 4 (dispatcher0 False None)
       = Inr (False, (dispatcher0 False None)\<lparr>world := [OnKey 10 4, OnKey 9 4]\<rparr>)"
    and b2: "handle_switch (env0 key_root) 4 (dispatcher0 False None)
       = Inr ((dispatcher0 False None)\<lparr>world := [OnKey 10 4, OnKey 9 4, FocusUpdate 4]\<rparr>)"
    by (simp_all del: bubble_walk.simps add: dispatcher0_sel walk_root env0_sel)
  have 3: "list_all (\<lambda>w. fst (on_key w 4 []) = (wid w = 11)) [key_leaf, key_mid, key_root, key_top]"
    by (simp add: key_leaf_def key_mid_def key_root_def key_top_def log_key_def)
  from 1 2 3 a1 a2 b1 b2 show ?thesis by blast
qed

section \<open>Properties of the dispatch cycle\<close>

























text \<open>
  The assumption on the handlers is needed as well: entered asleep with the application
  queue and the touch bit pending and no switch pressed, a handler that wakes the
  display opens the way to \<open>handle_touch\<close> in the same cycle.
\<close>

lemma asleep_cycle_with_waking_handler_services_touch:
  "display_sleep (asleep_with waking_handler)
   \<and> True \<notin> set (switches_state (inputs0 [False, False]))
   \<and> dispatch (env0 key_leaf) (inputs0 [False, False]) 65 (asleep_with waking_handler)
       = Inr ((asleep_with waking_handler)
               \<lparr>display_sleep := False,
                touch_manager := \<lparr>state = NoTouch, filters = 0\<rparr>,
                serviced := [ApplicationQueue, Touch],
                world := [Handled 5]\<rparr>)"
  by (simp add: dispatch_def then_do_def env0_def inputs0_def asleep_with_def dispatcher0_def
      handle_application_queue_def message_map_send_def send_def at_def ID_MAX_def msg5_def
      waking_handler_def handle_touch_def feed_def touch_env0_def
      frame0_def samples0_def manager0_def Let_def)

end
